theory Spec2Isabelle
  imports Complex_Main
begin

section \<open>The payoff algebra of payoff.py\<close>

text \<open>
  Numbers are modelled as \<^typ>\<open>real\<close> (the source computes in IEEE doubles; rounding,
  infinities and NaN are outside this model). A numpy array is modelled in one dimension,
  as a \<^typ>\<open>real list\<close>; its shape is its length. Every exception the source can raise
  on these inputs is a value of \<open>error\<close>, and a method returns \<open>error + result\<close>.
\<close>

datatype error = AssertionError | NameError | IndexError | ValueError | TypeError

text \<open>What a method hands back to numpy: a Python scalar or an array.\<close>

datatype ndval = Scalar real | Array "real list"

subsection \<open>The numpy operations the source uses\<close>

definition np_zeros :: "nat \<Rightarrow> real list" where
  "np_zeros n = replicate n 0"

definition np_ones :: "nat \<Rightarrow> real list" where
  "np_ones n = replicate n 1"

text \<open>
  A binary ufunc on two one-dimensional arrays: equal shapes combine elementwise, an
  array of one element is broadcast against the other, anything else is numpy's
  ``operands could not be broadcast together''.
\<close>

definition broadcast_arr ::
    "(real \<Rightarrow> real \<Rightarrow> real) \<Rightarrow> real list \<Rightarrow> real list \<Rightarrow> error + real list" where
  "broadcast_arr f xs ys =
     (if length xs = length ys then Inr (map2 f xs ys)
      else if length xs = 1 then Inr (map (f (hd xs)) ys)
      else if length ys = 1 then Inr (map (\<lambda>x. f x (hd ys)) xs)
      else Inl ValueError)"

fun broadcast :: "(real \<Rightarrow> real \<Rightarrow> real) \<Rightarrow> ndval \<Rightarrow> ndval \<Rightarrow> error + ndval" where
  "broadcast f (Scalar x) (Scalar y) = Inr (Scalar (f x y))"
| "broadcast f (Scalar x) (Array ys) = Inr (Array (map (f x) ys))"
| "broadcast f (Array xs) (Scalar y) = Inr (Array (map (\<lambda>x. f x y) xs))"
| "broadcast f (Array xs) (Array ys) =
     (case broadcast_arr f xs ys of Inl e \<Rightarrow> Inl e | Inr zs \<Rightarrow> Inr (Array zs))"

definition np_maximum :: "ndval \<Rightarrow> ndval \<Rightarrow> error + ndval" where
  "np_maximum = broadcast max"

text \<open>\<open>A[idx]\<close> for a boolean mask \<open>idx\<close>: the mask must have the shape of \<open>A\<close>.\<close>

definition mask_select :: "real list \<Rightarrow> bool list \<Rightarrow> error + real list" where
  "mask_select A idx =
     (if length A = length idx then Inr (map fst (filter snd (zip A idx)))
      else Inl IndexError)"

text \<open>
  \<open>A[idx] = X\<close>: a scalar fills the selected places; an array with one entry for each
  selected place is written in order; an array of one element is broadcast; any other
  array is a ValueError. \<open>A\<close> and \<open>idx\<close> have the same length wherever the source
  does this (both come from \<open>S.shape\<close>).
\<close>

fun fill :: "real list \<Rightarrow> bool list \<Rightarrow> real \<Rightarrow> real list" where
  "fill (a # A) (b # idx) x = (if b then x else a) # fill A idx x"
| "fill A idx x = A"

fun scatter :: "real list \<Rightarrow> bool list \<Rightarrow> real list \<Rightarrow> real list" where
  "scatter (a # A) (True # idx) (x # xs) = x # scatter A idx xs"
| "scatter (a # A) (False # idx) xs = a # scatter A idx xs"
| "scatter A idx xs = A"

definition mask_assign :: "real list \<Rightarrow> bool list \<Rightarrow> ndval \<Rightarrow> error + real list" where
  "mask_assign A idx X =
     (case X of
        Scalar x \<Rightarrow> Inr (fill A idx x)
      | Array xs \<Rightarrow>
          if length xs = length (filter (\<lambda>b. b) idx) then Inr (scatter A idx xs)
          else if length xs = 1 then Inr (fill A idx (hd xs))
          else Inl ValueError)"

subsection \<open>The payoff objects\<close>

text \<open>
  One constructor for each class, holding the instance's fields in the order the
  constructors of the source set them: the maturity \<open>T\<close> first, then \<open>K\<close>; \<open>stack\<close>;
  \<open>payoff\<close>, \<open>_time_discrete\<close>, \<open>_time_continuous\<close>; \<open>payoff\<close>, \<open>L\<close>;
  \<open>times\<close>, \<open>C\<close>, \<open>N\<close>, \<open>R\<close>.
\<close>

datatype payoff =
    Payoff real
  | Forward real real
  | CallE real real
  | CallA real real
  | PutE real real
  | PutA real real
  | PutV real real
  | CallVR real real
  | Stack real "payoff list"
  | Time real payoff "real set" "(real \<times> real) list"
  | UpAndOut real payoff real
  | Annuity real "real list" real real real
  | AnnuityI real "real list" real real real

fun T_of :: "payoff \<Rightarrow> real" where
  "T_of (Payoff T) = T"
| "T_of (Forward T K) = T"
| "T_of (CallE T K) = T"
| "T_of (CallA T K) = T"
| "T_of (PutE T K) = T"
| "T_of (PutA T K) = T"
| "T_of (PutV T K) = T"
| "T_of (CallVR T K) = T"
| "T_of (Stack T stack) = T"
| "T_of (Time T p D C) = T"
| "T_of (UpAndOut T p L) = T"
| "T_of (Annuity T ts C N R) = T"
| "T_of (AnnuityI T ts C N R) = T"

subsection \<open>Time restrictions\<close>

text \<open>
  An entry of the \<open>times\<close> argument of \<open>Time\<close>: a scalar, for which \<open>time[0]\<close>
  raises the TypeError (IndexError for a numpy scalar) that the setter catches, or a
  sequence whose first two items are the bounds of an interval. A sequence of fewer than
  two items is not an input of this model.
\<close>

datatype time_entry = Instant real | Interval real real

text \<open>
  The loop of the setter, on the pair \<open>(_time_discrete, _time_continuous)\<close>; the setter
  itself first empties both.
\<close>

fun times_loop ::
    "real \<Rightarrow> time_entry list \<Rightarrow> real set \<times> (real \<times> real) list
       \<Rightarrow> real set \<times> (real \<times> real) list" where
  "times_loop T [] (D, C) = (D, C)"
| "times_loop T (Interval a b # rest) (D, C) =
     times_loop T rest (D, C @ [(max a 0, min b T)])"
| "times_loop T (Instant x # rest) (D, C) =
     times_loop T rest (if 0 \<le> x \<and> x \<le> T then insert x D else D, C)"

definition times_setter :: "real \<Rightarrow> time_entry list \<Rightarrow> real set \<times> (real \<times> real) list" where
  "times_setter T entries = times_loop T entries ({}, [])"

fun in_continuous :: "(real \<times> real) list \<Rightarrow> real \<Rightarrow> bool" where
  "in_continuous [] t = False"
| "in_continuous ((l, u) # rest) t = (if l \<le> t \<and> t \<le> u then True else in_continuous rest t)"

definition Time_contains :: "real set \<Rightarrow> (real \<times> real) list \<Rightarrow> real \<Rightarrow> bool" where
  "Time_contains D C t = (if t \<in> D then True else in_continuous C t)"

text \<open>
  \<open>Payoff.__contains__\<close> is \<open>return 0 <= t <= T\<close>: the chained comparison stops with
  False when \<open>0 <= t\<close> fails, and otherwise reads the global name \<open>T\<close>, which the
  module never defines.
\<close>

definition Payoff_contains :: "real \<Rightarrow> error + bool" where
  "Payoff_contains t = (if 0 \<le> t then Inl NameError else Inr False)"

fun contains :: "payoff \<Rightarrow> real \<Rightarrow> error + bool" where
  "contains (Time T p D C) t = Inr (Time_contains D C t)"
| "contains (Annuity T ts C N R) t = Inr (t \<in> set ts)"
| "contains p t = Payoff_contains t"

subsection \<open>Methods of the classes without children\<close>

text \<open>
  \<open>S - K\<close> and \<open>np.maximum(A, 0)\<close> combine an array with a scalar, elementwise;
  \<open>np.maximum(V, S - K)\<close> combines two arrays, with broadcasting.
\<close>

definition Payoff_default :: "real \<Rightarrow> real \<Rightarrow> real list \<Rightarrow> error + real list" where
  "Payoff_default T t S = (if t = T then Inl AssertionError else Inr (np_zeros (length S)))"

definition Payoff_terminal :: "real list \<Rightarrow> ndval" where
  "Payoff_terminal S = Array (np_zeros (length S))"

definition Payoff_transient :: "real \<Rightarrow> real \<Rightarrow> real list \<Rightarrow> real list \<Rightarrow> error + real list" where
  "Payoff_transient T t V S = (if t = T then Inl AssertionError else Inr V)"

definition Payoff_coupon :: "real \<Rightarrow> real" where
  "Payoff_coupon t = 0"

definition Forward_terminal :: "real \<Rightarrow> real list \<Rightarrow> ndval" where
  "Forward_terminal K S = Array (map (\<lambda>s. s - K) S)"

definition CallE_terminal :: "real \<Rightarrow> real list \<Rightarrow> ndval" where
  "CallE_terminal K S = Array (map (\<lambda>x. max x 0) (map (\<lambda>s. s - K) S))"

definition CallA_default :: "real \<Rightarrow> real \<Rightarrow> real \<Rightarrow> real list \<Rightarrow> error + real list" where
  "CallA_default T K t S =
     (if t = T then Inl AssertionError
      else Inr (map (\<lambda>x. max x 0) (map (\<lambda>s. s - K) S)))"

definition CallA_transient ::
    "real \<Rightarrow> real \<Rightarrow> real \<Rightarrow> real list \<Rightarrow> real list \<Rightarrow> error + real list" where
  "CallA_transient T K t V S =
     (if t = T then Inl AssertionError
      else broadcast_arr max V (map (\<lambda>s. s - K) S))"

definition PutE_terminal :: "real \<Rightarrow> real list \<Rightarrow> ndval" where
  "PutE_terminal K S = Array (map (\<lambda>x. max x 0) (map (\<lambda>s. K - s) S))"

definition PutA_default :: "real \<Rightarrow> real \<Rightarrow> real \<Rightarrow> real list \<Rightarrow> error + real list" where
  "PutA_default T K t S =
     (if t = T then Inl AssertionError
      else Inr (map (\<lambda>x. max x 0) (map (\<lambda>s. K - s) S)))"

definition PutA_transient ::
    "real \<Rightarrow> real \<Rightarrow> real \<Rightarrow> real list \<Rightarrow> real list \<Rightarrow> error + real list" where
  "PutA_transient T K t V S =
     (if t = T then Inl AssertionError
      else broadcast_arr max V (map (\<lambda>s. K - s) S))"

definition PutV_transient ::
    "real \<Rightarrow> real \<Rightarrow> real \<Rightarrow> real list \<Rightarrow> real list \<Rightarrow> error + real list" where
  "PutV_transient T K t V S =
     (if t = T then Inl AssertionError else Inr (map (\<lambda>v. max v K) V))"

definition CallVR_transient ::
    "real \<Rightarrow> real \<Rightarrow> real \<Rightarrow> real list \<Rightarrow> real list \<Rightarrow> error + real list" where
  "CallVR_transient T K t V S =
     (if t = T then Inl AssertionError else Inr (map (\<lambda>v. min v K) V))"

definition Annuity_default :: "real \<Rightarrow> real \<Rightarrow> real \<Rightarrow> real \<Rightarrow> real list \<Rightarrow> error + real list" where
  "Annuity_default T N R t S =
     (if t = T then Inl AssertionError
      else Inr (map (\<lambda>x. x * N * R) (np_ones (length S))))"

definition Annuity_terminal :: "real \<Rightarrow> real list \<Rightarrow> ndval" where
  "Annuity_terminal N S = Array (map (\<lambda>x. x * N) (np_ones (length S)))"

definition Annuity_coupon :: "real list \<Rightarrow> real \<Rightarrow> real \<Rightarrow> real" where
  "Annuity_coupon ts C t = (if t \<in> set ts then C else 0)"

definition AnnuityI_transient ::
    "real \<Rightarrow> real list \<Rightarrow> real \<Rightarrow> real \<Rightarrow> real list \<Rightarrow> real list \<Rightarrow> error + real list" where
  "AnnuityI_transient T ts C t V S =
     (if t = T then Inl AssertionError
      else if t \<in> set ts then Inr (map (\<lambda>v. v + C) V)
      else Inr V)"

definition AnnuityI_terminal :: "real \<Rightarrow> real list \<Rightarrow> real \<Rightarrow> real \<Rightarrow> real list \<Rightarrow> ndval" where
  "AnnuityI_terminal T ts C N S =
     (let V = map (\<lambda>x. x * N) (np_ones (length S))
      in if T \<in> set ts then Array (map (\<lambda>v. v + C) V) else Array V)"

subsection \<open>The four operations, dispatched on the class\<close>

text \<open>
  A method a class does not define is the one of its parent class. The loops of \<open>Stack\<close>
  over \<open>self.stack[1:]\<close> (or \<open>self.stack\<close>) are the \<open>_loop\<close> functions, with the
  running value \<open>V\<close> as their last argument.
\<close>

fun default_val :: "payoff \<Rightarrow> real \<Rightarrow> real list \<Rightarrow> error + real list"
and default_loop :: "payoff list \<Rightarrow> real \<Rightarrow> real list \<Rightarrow> real list \<Rightarrow> error + real list" where
  "default_val (Payoff T) t S = Payoff_default T t S"
| "default_val (Forward T K) t S = Payoff_default T t S"
| "default_val (CallE T K) t S = Payoff_default T t S"
| "default_val (CallA T K) t S = CallA_default T K t S"
| "default_val (PutE T K) t S = Payoff_default T t S"
| "default_val (PutA T K) t S = PutA_default T K t S"
| "default_val (PutV T K) t S = Payoff_default T t S"
| "default_val (CallVR T K) t S = Payoff_default T t S"
| "default_val (Stack T []) t S = (if t = T then Inl AssertionError else Inl IndexError)"
| "default_val (Stack T (p # rest)) t S =
     (if t = T then Inl AssertionError
      else case default_val p t S of
             Inl e \<Rightarrow> Inl e
           | Inr V \<Rightarrow> default_loop rest t S V)"
| "default_val (Time T p D C) t S =
     (if t = T then Inl AssertionError
      else if Time_contains D C t then default_val p t S
      else Inr (np_zeros (length S)))"
| "default_val (UpAndOut T p L) t S =
     (if t = T then Inl AssertionError
      else let V = np_zeros (length S); idx = map (\<lambda>s. s < L) S
           in case mask_select S idx of
                Inl e \<Rightarrow> Inl e
              | Inr S' \<Rightarrow>
                  (case default_val p t S' of
                     Inl e \<Rightarrow> Inl e
                   | Inr W \<Rightarrow> mask_assign V idx (Array W)))"
| "default_val (Annuity T ts C N R) t S = Annuity_default T N R t S"
| "default_val (AnnuityI T ts C N R) t S = Annuity_default T N R t S"
| "default_loop [] t S V = Inr V"
| "default_loop (p # rest) t S V =
     (case default_val p t S of
        Inl e \<Rightarrow> Inl e
      | Inr W \<Rightarrow>
          (case broadcast_arr max V W of
             Inl e \<Rightarrow> Inl e
           | Inr V' \<Rightarrow> default_loop rest t S V'))"

fun transient :: "payoff \<Rightarrow> real \<Rightarrow> real list \<Rightarrow> real list \<Rightarrow> error + real list"
and transient_loop :: "payoff list \<Rightarrow> real \<Rightarrow> real list \<Rightarrow> real list \<Rightarrow> error + real list" where
  "transient (Payoff T) t V S = Payoff_transient T t V S"
| "transient (Forward T K) t V S = Payoff_transient T t V S"
| "transient (CallE T K) t V S = Payoff_transient T t V S"
| "transient (CallA T K) t V S = CallA_transient T K t V S"
| "transient (PutE T K) t V S = Payoff_transient T t V S"
| "transient (PutA T K) t V S = PutA_transient T K t V S"
| "transient (PutV T K) t V S = PutV_transient T K t V S"
| "transient (CallVR T K) t V S = CallVR_transient T K t V S"
| "transient (Stack T stack) t V S =
     (if t = T then Inl AssertionError else transient_loop stack t V S)"
| "transient (Time T p D C) t V S =
     (if t = T then Inl AssertionError
      else if Time_contains D C t then transient p t V S
      else Inr V)"
| "transient (UpAndOut T p L) t V S =
     (let Vp = np_zeros (length S); idx = map (\<lambda>s. s < L) S
      in case mask_select V idx of
           Inl e \<Rightarrow> Inl e
         | Inr V' \<Rightarrow>
             (case mask_select S idx of
                Inl e \<Rightarrow> Inl e
              | Inr S' \<Rightarrow>
                  (case transient p t V' S' of
                     Inl e \<Rightarrow> Inl e
                   | Inr W \<Rightarrow> mask_assign Vp idx (Array W))))"
| "transient (Annuity T ts C N R) t V S = Payoff_transient T t V S"
| "transient (AnnuityI T ts C N R) t V S = AnnuityI_transient T ts C t V S"
| "transient_loop [] t V S = Inr V"
| "transient_loop (p # rest) t V S =
     (case transient p t V S of
        Inl e \<Rightarrow> Inl e
      | Inr V' \<Rightarrow> transient_loop rest t V' S)"

fun terminal :: "payoff \<Rightarrow> real list \<Rightarrow> error + ndval"
and terminal_loop :: "payoff list \<Rightarrow> real list \<Rightarrow> ndval \<Rightarrow> error + ndval" where
  "terminal (Payoff T) S = Inr (Payoff_terminal S)"
| "terminal (Forward T K) S = Inr (Forward_terminal K S)"
| "terminal (CallE T K) S = Inr (CallE_terminal K S)"
| "terminal (CallA T K) S = Inr (CallE_terminal K S)"
| "terminal (PutE T K) S = Inr (PutE_terminal K S)"
| "terminal (PutA T K) S = Inr (PutE_terminal K S)"
| "terminal (PutV T K) S = Inr (Payoff_terminal S)"
| "terminal (CallVR T K) S = Inr (Payoff_terminal S)"
| "terminal (Stack T []) S = Inl IndexError"
| "terminal (Stack T (p # rest)) S =
     (case terminal p S of
        Inl e \<Rightarrow> Inl e
      | Inr V \<Rightarrow> terminal_loop rest S V)"
| "terminal (Time T p D C) S =
     (if Time_contains D C T then terminal p S else Inr (Scalar 0))"
| "terminal (UpAndOut T p L) S =
     (let V = np_zeros (length S); idx = map (\<lambda>s. s < L) S
      in case mask_select S idx of
           Inl e \<Rightarrow> Inl e
         | Inr S' \<Rightarrow>
             (case terminal p S' of
                Inl e \<Rightarrow> Inl e
              | Inr W \<Rightarrow>
                  (case mask_assign V idx W of
                     Inl e \<Rightarrow> Inl e
                   | Inr V' \<Rightarrow> Inr (Array V'))))"
| "terminal (Annuity T ts C N R) S = Inr (Annuity_terminal N S)"
| "terminal (AnnuityI T ts C N R) S = Inr (AnnuityI_terminal T ts C N S)"
| "terminal_loop [] S V = Inr V"
| "terminal_loop (p # rest) S V =
     (case terminal p S of
        Inl e \<Rightarrow> Inl e
      | Inr W \<Rightarrow>
          (case np_maximum V W of
             Inl e \<Rightarrow> Inl e
           | Inr V' \<Rightarrow> terminal_loop rest S V'))"

fun coupon :: "payoff \<Rightarrow> real \<Rightarrow> error + real"
and coupon_loop :: "payoff list \<Rightarrow> real \<Rightarrow> real \<Rightarrow> error + real" where
  "coupon (Stack T stack) t = coupon_loop stack t 0"
| "coupon (Time T p D C) t = (if Time_contains D C t then coupon p t else Inr 0)"
| "coupon (UpAndOut T p L) t =
     (case Payoff_contains t of
        Inl e \<Rightarrow> Inl e
      | Inr b \<Rightarrow> if b then coupon p t else Inr 0)"
| "coupon (Annuity T ts C N R) t = Inr (Annuity_coupon ts C t)"
| "coupon p t = Inr (Payoff_coupon t)"
| "coupon_loop [] t V = Inr V"
| "coupon_loop (p # rest) t V =
     (case coupon p t of
        Inl e \<Rightarrow> Inl e
      | Inr c \<Rightarrow> coupon_loop rest t (V + c))"

subsection \<open>Constructors\<close>

text \<open>
  \<open>Stack.__init__\<close> reads \<open>stack[0].T\<close>, an IndexError on an empty sequence;
  \<open>Time.__init__\<close> and \<open>UpAndOut.__init__\<close> take the maturity of their child, and
  \<open>Time.__init__\<close> runs the setter of \<open>times\<close> on empty collections.
\<close>

definition Stack_init :: "payoff list \<Rightarrow> error + payoff" where
  "Stack_init stack =
     (case stack of [] \<Rightarrow> Inl IndexError | p # _ \<Rightarrow> Inr (Stack (T_of p) stack))"

definition Time_init :: "payoff \<Rightarrow> time_entry list \<Rightarrow> payoff" where
  "Time_init p entries =
     (case times_setter (T_of p) entries of (D, C) \<Rightarrow> Time (T_of p) p D C)"

definition UpAndOut_init :: "payoff \<Rightarrow> real \<Rightarrow> payoff" where
  "UpAndOut_init p L = UpAndOut (T_of p) p L"

text \<open>
  The objects the constructors can build: a stack is not empty and carries the maturity
  of its first child, a \<open>Time\<close> or an \<open>UpAndOut\<close> the maturity of its child.
\<close>

fun built :: "payoff \<Rightarrow> bool"
and built_list :: "payoff list \<Rightarrow> bool" where
  "built (Stack T stack) = (stack \<noteq> [] \<and> T = T_of (hd stack) \<and> built_list stack)"
| "built (Time T p D C) = (T = T_of p \<and> built p)"
| "built (UpAndOut T p L) = (T = T_of p \<and> built p)"
| "built p = True"
| "built_list [] = True"
| "built_list (p # rest) = (built p \<and> built_list rest)"

subsection \<open>The VariableStrike mixin\<close>

text \<open>
  \<open>VariableStrike\<close> is mixed into a class that has a strike, and its \<open>transient\<close>
  runs the \<open>transient\<close> of that class (\<open>super\<close>) between writing \<open>self.K\<close> and
  restoring it. The object is the payoff value, the field \<open>K\<close> is read by \<open>K_of\<close>
  (None: the class has no such field, and \<open>self.K\<close> is an AttributeError) and written
  by \<open>set_K\<close>. The method \<open>strike\<close> is the parameter \<open>strike\<close>: the mixin leaves
  it to the concrete class, and it may raise. The result is the value returned or the
  exception raised, with the object as the call leaves it.
\<close>

datatype mixin_error = AttributeError | Raised error

fun K_of :: "payoff \<Rightarrow> real option" where
  "K_of (Forward T K) = Some K"
| "K_of (CallE T K) = Some K"
| "K_of (CallA T K) = Some K"
| "K_of (PutE T K) = Some K"
| "K_of (PutA T K) = Some K"
| "K_of (PutV T K) = Some K"
| "K_of (CallVR T K) = Some K"
| "K_of p = None"

fun set_K :: "payoff \<Rightarrow> real \<Rightarrow> payoff" where
  "set_K (Forward T K) k = Forward T k"
| "set_K (CallE T K) k = CallE T k"
| "set_K (CallA T K) k = CallA T k"
| "set_K (PutE T K) k = PutE T k"
| "set_K (PutA T K) k = PutA T k"
| "set_K (PutV T K) k = PutV T k"
| "set_K (CallVR T K) k = CallVR T k"
| "set_K p k = p"

definition VariableStrike_transient ::
    "(real \<Rightarrow> error + real) \<Rightarrow> payoff \<Rightarrow> real \<Rightarrow> real list \<Rightarrow> real list
       \<Rightarrow> (mixin_error + real list) \<times> payoff" where
  "VariableStrike_transient strike self t V S =
     (case K_of self of
        None \<Rightarrow> (Inl AttributeError, self)
      | Some K_origin \<Rightarrow>
          (case strike t of
             Inl e \<Rightarrow> (Inl (Raised e), set_K self K_origin)
           | Inr k \<Rightarrow>
               (let self' = set_K self k
                in (case transient self' t V S of
                      Inl e \<Rightarrow> (Inl (Raised e), set_K self' K_origin)
                    | Inr W \<Rightarrow> (Inr W, set_K self' K_origin)))))"

subsection \<open>Reading a result node by node\<close>

text \<open>
  A result has the shape of \<open>n\<close> nodes when it is an array of \<open>n\<close> entries, or a scalar
  (which numpy broadcasts to every node); \<open>node_value\<close> is its value at a node.
\<close>

fun has_shape :: "ndval \<Rightarrow> nat \<Rightarrow> bool" where
  "has_shape (Scalar x) n = True"
| "has_shape (Array xs) n = (length xs = n)"

fun node_value :: "ndval \<Rightarrow> nat \<Rightarrow> real" where
  "node_value (Scalar x) i = x"
| "node_value (Array xs) i = xs ! i"

section \<open>Properties\<close>

subsection \<open>Masks and broadcasting\<close>

lemma length_fill [simp]: "length (fill A idx x) = length A"
  by (induction A idx x rule: fill.induct) auto

lemma length_scatter [simp]: "length (scatter A idx xs) = length A"
  by (induction A idx xs rule: scatter.induct) auto

lemma fill_nth:
  "length A = length idx \<Longrightarrow> i < length A \<Longrightarrow>
     fill A idx x ! i = (if idx ! i then x else A ! i)"
proof (induction A idx x arbitrary: i rule: fill.induct)
  case (1 a A b idx x)
  then show ?case by (cases i) auto
qed auto

lemma scatter_nth:
  "length A = length idx \<Longrightarrow> length xs = length (filter (\<lambda>b. b) idx) \<Longrightarrow> i < length A \<Longrightarrow>
     scatter A idx xs ! i =
       (if idx ! i then xs ! length (filter (\<lambda>b. b) (take i idx)) else A ! i)"
proof (induction A idx xs arbitrary: i rule: scatter.induct)
  case (1 a A idx x xs)
  then show ?case by (cases i) auto
next
  case (2 a A idx xs)
  then show ?case by (cases i) auto
qed auto

lemma mask_assign_length: "mask_assign A idx X = Inr R \<Longrightarrow> length R = length A"
  by (auto simp: mask_assign_def split: ndval.splits if_splits)

lemma mask_select_filter:
  "mask_select S (map P S) = Inr (filter P S)"
  by (induction S) (auto simp: mask_select_def)

lemma mask_select_zip:
  "length V = length S \<Longrightarrow>
     mask_select V (map P S) = Inr (map fst (filter (\<lambda>(v, s). P s) (zip V S)))"
proof -
  assume len: "length V = length S"
  have "filter snd (zip V (map P S)) = map (\<lambda>(v, s). (v, P s)) (filter (\<lambda>(v, s). P s) (zip V S))"
    using len by (induction V S rule: list_induct2) auto
  then show ?thesis using len by (simp add: mask_select_def comp_def case_prod_unfold)
qed

lemma count_mask: "length (filter (\<lambda>b. b) (map P S)) = length (filter P S)"
  by (induction S) auto

lemma rank_mask: "length (filter (\<lambda>b. b) (take i (map P S))) = length (filter P (take i S))"
  by (simp add: take_map filter_map comp_def)

lemma mask_assign_nth:
  assumes "has_shape W (length (filter P S))"
  shows "\<exists>R. mask_assign (np_zeros (length S)) (map P S) W = Inr R \<and> length R = length S
           \<and> (\<forall>i<length S. R ! i =
                 (if P (S ! i) then node_value W (length (filter P (take i S))) else 0))"
proof (cases W)
  case (Scalar x)
  then show ?thesis
    by (simp add: mask_assign_def fill_nth np_zeros_def)
next
  case (Array xs)
  with assms have len: "length xs = length (filter (\<lambda>b. b) (map P S))"
    by (simp add: filter_map comp_def)
  have "\<forall>i<length S. scatter (np_zeros (length S)) (map P S) xs ! i =
          (if P (S ! i) then xs ! length (filter P (take i S)) else 0)"
    using len by (simp add: scatter_nth np_zeros_def rank_mask del: filter_map)
  then show ?thesis using Array len
    by (simp add: mask_assign_def np_zeros_def)
qed


lemma broadcast_arr_same:
  "length xs = length ys \<Longrightarrow> broadcast_arr f xs ys = Inr (map2 f xs ys)"
  by (simp add: broadcast_arr_def)

lemma np_maximum_shape:
  assumes "has_shape a n" "has_shape b n"
  shows "\<exists>c. np_maximum a b = Inr c \<and> has_shape c n
           \<and> (\<forall>i<n. node_value c i = max (node_value a i) (node_value b i))"
  using assms by (cases a; cases b) (auto simp: np_maximum_def broadcast_arr_same)

subsection \<open>Shapes of the results\<close>

lemma terminal_shape:
  "terminal p S = Inr W \<Longrightarrow> has_shape W (length S)"
  "terminal_loop ps S V = Inr W \<Longrightarrow> has_shape V (length S) \<Longrightarrow> has_shape W (length S)"
proof (induction p S and ps S V arbitrary: W and W rule: terminal_terminal_loop.induct)
  case (12 T p L S)
  then show ?case
    by (auto simp: Let_def mask_select_filter np_zeros_def dest: mask_assign_length
        split: sum.splits)
next
  case (16 p rest S V)
  from "16.prems" obtain X where X: "terminal p S = Inr X"
    by (auto split: sum.splits)
  then have sX: "has_shape X (length S)" using "16.IH"(1) by simp
  from np_maximum_shape [OF "16.prems"(2) sX] obtain V' where
    V': "np_maximum V X = Inr V'" "has_shape V' (length S)" by blast
  with "16.prems" X have "terminal_loop rest S V' = Inr W" by simp
  then show ?case using "16.IH"(2) X V' by simp
qed (auto simp: Payoff_terminal_def Forward_terminal_def CallE_terminal_def PutE_terminal_def
      Annuity_terminal_def AnnuityI_terminal_def np_zeros_def np_ones_def Let_def
      split: sum.splits if_splits)


lemma default_shape:
  "default_val p t S = Inr W \<Longrightarrow> length W = length S"
  "default_loop ps t S V = Inr W \<Longrightarrow> length V = length S \<Longrightarrow> length W = length S"
proof (induction p t S and ps t S V arbitrary: W and W rule: default_val_default_loop.induct)
  case (12 T p L t S)
  then show ?case
    by (auto simp: Let_def mask_select_filter np_zeros_def dest: mask_assign_length
        split: sum.splits if_splits)
next
  case (16 p rest t S V)
  from "16.prems" obtain X where X: "default_val p t S = Inr X"
    by (auto split: sum.splits)
  then have lX: "length X = length S" using "16.IH"(1) by simp
  with "16.prems" X have "default_loop rest t S (map2 max V X) = Inr W"
    by (simp add: broadcast_arr_same)
  then show ?case using "16.IH"(2) [OF X] "16.prems"(2) lX
    by (simp add: broadcast_arr_same)
qed (auto simp: Payoff_default_def CallA_default_def PutA_default_def Annuity_default_def
      np_zeros_def np_ones_def split: sum.splits if_splits)

lemma transient_shape:
  "transient p t V S = Inr W \<Longrightarrow> length V = length S \<Longrightarrow> length W = length S"
  "transient_loop ps t V S = Inr W \<Longrightarrow> length V = length S \<Longrightarrow> length W = length S"
proof (induction p t V S and ps t V S arbitrary: W and W rule: transient_transient_loop.induct)
  case (11 T p L t V S)
  then show ?case
    by (auto simp: Let_def np_zeros_def dest: mask_assign_length split: sum.splits if_splits)
next
  case (15 p rest t V S)
  from "15.prems" obtain X where X: "transient p t V S = Inr X"
    by (auto split: sum.splits)
  then have lX: "length X = length S" using "15.IH"(1) "15.prems"(2) by simp
  from "15.prems" X have "transient_loop rest t X S = Inr W" by simp
  then show ?case using "15.IH"(2) [OF X] lX by simp
qed (auto simp: Payoff_transient_def CallA_transient_def PutA_transient_def PutV_transient_def
      CallVR_transient_def AnnuityI_transient_def broadcast_arr_same split: sum.splits if_splits)

lemma terminal_total:
  "built p \<Longrightarrow> \<exists>v. terminal p S = Inr v"
  "built_list ps \<Longrightarrow> has_shape V (length S) \<Longrightarrow> \<exists>v. terminal_loop ps S V = Inr v"
proof (induction p S and ps S V rule: terminal_terminal_loop.induct)
  case (10 T p rest S)
  then obtain v where v: "terminal p S = Inr v" by auto
  have "has_shape v (length S)" using v by (rule terminal_shape(1))
  with 10 v show ?case by auto
next
  case (12 T p L S)
  have "\<exists>v. terminal p (filter (\<lambda>s. s < L) S) = Inr v"
    by (rule "12.IH" [OF refl refl mask_select_filter]) (use "12.prems" in simp)
  then obtain W where W: "terminal p (filter (\<lambda>s. s < L) S) = Inr W" by blast
  have "has_shape W (length (filter (\<lambda>s. s < L) S))" using W by (rule terminal_shape(1))
  from mask_assign_nth [OF this] W show ?case
    by (auto simp: Let_def mask_select_filter)
next
  case (16 p rest S V)
  then obtain W where W: "terminal p S = Inr W" by auto
  have sW: "has_shape W (length S)" using W by (rule terminal_shape(1))
  from np_maximum_shape [OF "16.prems"(2) sW] obtain V' where
    V': "np_maximum V W = Inr V'" "has_shape V' (length S)" by blast
  with 16 W show ?case by auto
qed auto

lemma terminal_values:
  "built_list ps \<Longrightarrow> \<exists>vs. map (\<lambda>p. terminal p S) ps = map Inr vs"
proof (induction ps)
  case Nil
  then show ?case by simp
next
  case (Cons p ps)
  then obtain vs where vs: "map (\<lambda>p. terminal p S) ps = map Inr vs" by auto
  from Cons.prems obtain v where "terminal p S = Inr v" using terminal_total(1) by auto
  with vs have "map (\<lambda>p. terminal p S) (p # ps) = map Inr (v # vs)" by simp
  then show ?case by blast
qed

subsection \<open>The assertions on the maturity\<close>

lemma default_asserts: "default_val p (T_of p) S = Inl AssertionError"
proof (cases p)
  case (Stack T stack)
  then show ?thesis by (cases stack) auto
qed (auto simp: Payoff_default_def CallA_default_def PutA_default_def Annuity_default_def)

lemma transient_asserts:
  "built p \<Longrightarrow> length V = length S \<Longrightarrow> transient p (T_of p) V S = Inl AssertionError"
proof (induction p arbitrary: V S)
  case (UpAndOut T p L)
  have len: "length (map fst (filter (\<lambda>(v, s). s < L) (zip V S))) = length (filter (\<lambda>s. s < L) S)"
    using UpAndOut.prems(2) by (induction V S rule: list_induct2) auto
  from UpAndOut.prems have "built p" "T = T_of p" by auto
  with UpAndOut.IH [OF \<open>built p\<close> len] UpAndOut.prems(2) show ?case
    by (simp add: mask_select_filter mask_select_zip Let_def)
qed (auto simp: Payoff_transient_def CallA_transient_def PutA_transient_def PutV_transient_def
      CallVR_transient_def AnnuityI_transient_def)

lemma set_K_asserts:
  "K_of self = Some K0 \<Longrightarrow> transient (set_K self k) (T_of self) V S = Inl AssertionError"
  by (cases self)
     (auto simp: Payoff_transient_def CallA_transient_def PutA_transient_def
        PutV_transient_def CallVR_transient_def)

text \<open>
  Every class other than \<open>UpAndOut\<close> asserts before it looks at \<open>V\<close>; an
  \<open>UpAndOut\<close> that the constructor built reaches the assertion of its child when \<open>V\<close>
  has the shape of \<open>S\<close>.
\<close>

lemma transient_asserts_other:
  "(\<And>T' q L. p \<noteq> UpAndOut T' q L) \<Longrightarrow> transient p (T_of p) V S = Inl AssertionError"
  by (cases p)
     (auto simp: Payoff_transient_def CallA_transient_def PutA_transient_def
        PutV_transient_def CallVR_transient_def AnnuityI_transient_def)

lemma mixin_asserts:
  assumes "K_of p = Some K0" and "strike (T_of p) = Inr k"
  shows "fst (VariableStrike_transient strike p (T_of p) V S) = Inl (Raised AssertionError)"
  using assms set_K_asserts [OF assms(1), of k V S]
  by (simp add: VariableStrike_transient_def)

subsection \<open>The loops of \<open>Stack.terminal\<close> and of the setter of \<open>times\<close>\<close>

lemma terminal_loop_max:
  "has_shape V (length S) \<Longrightarrow> map (\<lambda>p. terminal p S) ps = map Inr vs \<Longrightarrow>
     \<exists>R. terminal_loop ps S V = Inr R \<and> has_shape R (length S)
        \<and> (\<forall>i<length S. node_value R i
               = fold max (map (\<lambda>v. node_value v i) vs) (node_value V i))"
proof (induction ps arbitrary: V vs)
  case Nil
  then show ?case by simp
next
  case (Cons p ps)
  from Cons.prems(2) obtain v vs' where vs: "vs = v # vs'"
    and v: "terminal p S = Inr v"
    and rest: "map (\<lambda>p. terminal p S) ps = map Inr vs'"
    by (cases vs) auto
  have sv: "has_shape v (length S)" using v by (rule terminal_shape(1))
  from np_maximum_shape [OF Cons.prems(1) sv] obtain V' where
    V': "np_maximum V v = Inr V'" "has_shape V' (length S)"
    "\<forall>i<length S. node_value V' i = max (node_value V i) (node_value v i)" by blast
  from Cons.IH [OF V'(2) rest] obtain R where
    R: "terminal_loop ps S V' = Inr R" "has_shape R (length S)"
    "\<forall>i<length S. node_value R i = fold max (map (\<lambda>v. node_value v i) vs') (node_value V' i)"
    by blast
  have "terminal_loop (p # ps) S V = Inr R" using v V'(1) R(1) by simp
  moreover have "\<forall>i<length S. node_value R i
      = fold max (map (\<lambda>v. node_value v i) vs) (node_value V i)"
    using R(3) V'(3) by (simp add: vs max.commute)
  ultimately show ?case using R(2) by blast
qed

lemma times_loop_char:
  "times_loop T entries (D, C) =
     (D \<union> {x. Instant x \<in> set entries \<and> 0 \<le> x \<and> x \<le> T},
      C @ concat (map (\<lambda>e. case e of Instant x \<Rightarrow> [] | Interval a b \<Rightarrow> [(max a 0, min b T)]) entries))"
proof (induction entries arbitrary: D C)
  case Nil
  then show ?case by simp
next
  case (Cons e rest)
  then show ?case by (cases e) auto
qed

lemma in_continuous_iff:
  "in_continuous C t \<longleftrightarrow> (\<exists>l u. (l, u) \<in> set C \<and> l \<le> t \<and> t \<le> u)"
  by (induction C t rule: in_continuous.induct) auto

subsection \<open>The strike field\<close>

lemma K_of_set_K: "K_of self = Some K0 \<Longrightarrow> K_of (set_K self k) = Some k"
  by (cases self) auto

lemma set_K_set_K: "set_K (set_K self k) k' = set_K self k'"
  by (cases self) auto

lemma set_K_K_of: "K_of self = Some K0 \<Longrightarrow> set_K self K0 = self"
  by (cases self) auto

section \<open>The claims\<close>

text \<open>
  Claim C1 says that \<open>default\<close> and \<open>transient\<close> at the maturity raise the assertion
  failure, for every node array and every value array. \<open>UpAndOut.transient\<close> is the
  only one of these methods without \<open>assert(t != self.T)\<close>, which \<open>UpAndOut.default\<close>
  has: it reads \<open>V[idx]\<close> and runs its child first, so the failure it raises is the
  child's at best. For \<open>UpAndOut(CallA(1, 100), 120)\<close> at \<open>t = 1\<close>, with an empty
  \<open>V\<close> and \<open>S = [90]\<close>, the call stops at \<open>V[idx]\<close> with an IndexError, where
  \<open>default\<close> of the same object and \<open>transient\<close> of the child alone, on the same
  arrays, raise the assertion failure.
\<close>

theorem UpAndOut_transient_no_assertion:
  "T_of (UpAndOut_init (CallA 1 100) 120) = 1
   \<and> transient (UpAndOut_init (CallA 1 100) 120) 1 [] [90] = Inl IndexError
   \<and> transient (UpAndOut_init (CallA 1 100) 120) 1 [] [90] \<noteq> Inl AssertionError
   \<and> default_val (UpAndOut_init (CallA 1 100) 120) 1 [90] = Inl AssertionError
   \<and> transient (CallA 1 100) 1 [] [90] = Inl AssertionError"
  by (simp add: UpAndOut_init_def mask_select_def CallA_transient_def)

text \<open>
  Claim C2, as the code has it. For \<open>CallA\<close> and \<open>PutA\<close>, at every time other than the
  maturity and for arrays of the same shape, \<open>default\<close> is the intrinsic value
  \<open>max(S - K, 0)\<close> (\<open>max(K - S, 0)\<close> for the put) and \<open>transient\<close> is the elementwise
  maximum of \<open>V\<close> and \<open>S - K\<close> (\<open>K - S\<close>), not of \<open>V\<close> and the intrinsic value. So
  \<open>transient\<close> is at least \<open>V\<close> and at least \<open>S - K\<close> at every node, and it is the
  maximum of \<open>V\<close> and the intrinsic value, hence at least the intrinsic value, at every
  node where \<open>V\<close> is not negative.
\<close>

theorem American_exercise:
  assumes "t \<noteq> T" and "length V = length S"
  shows "default_val (CallA T K) t S = Inr (map (\<lambda>s. max (s - K) 0) S)
       \<and> default_val (PutA T K) t S = Inr (map (\<lambda>s. max (K - s) 0) S)
       \<and> transient (CallA T K) t V S = Inr (map2 max V (map (\<lambda>s. s - K) S))
       \<and> transient (PutA T K) t V S = Inr (map2 max V (map (\<lambda>s. K - s) S))
       \<and> (\<forall>W i. transient (CallA T K) t V S = Inr W \<and> i < length S \<longrightarrow>
             V ! i \<le> W ! i \<and> S ! i - K \<le> W ! i
             \<and> (0 \<le> V ! i \<longrightarrow>
                  W ! i = max (V ! i) (max (S ! i - K) 0) \<and> max (S ! i - K) 0 \<le> W ! i))
       \<and> (\<forall>W i. transient (PutA T K) t V S = Inr W \<and> i < length S \<longrightarrow>
             V ! i \<le> W ! i \<and> K - S ! i \<le> W ! i
             \<and> (0 \<le> V ! i \<longrightarrow>
                  W ! i = max (V ! i) (max (K - S ! i) 0) \<and> max (K - S ! i) 0 \<le> W ! i))"
  using assms
  by (auto simp: CallA_default_def PutA_default_def CallA_transient_def PutA_transient_def
      broadcast_arr_def)

theorem American_exercise_witness:
  "(0 :: real) \<noteq> 1 \<and> length [3 :: real, 20] = length [90 :: real, 110]
   \<and> default_val (CallA 1 100) 0 [90, 110] = Inr [0, 10]
   \<and> default_val (PutA 1 100) 0 [90, 110] = Inr [10, 0]
   \<and> transient (CallA 1 100) 0 [3, 20] [90, 110] = Inr [3, 20]
   \<and> transient (PutA 1 100) 0 [3, 20] [90, 110] = Inr [10, 20]"
  using American_exercise [of 0 1 "[3, 20]" "[90, 110]" 100]
  by simp

text \<open>
  Claim C2 as it is written fails where the value is negative: for \<open>CallA(1, 100)\<close> at
  \<open>t = 0\<close>, \<open>V = [-1]\<close> and \<open>S = [90]\<close>, \<open>transient\<close> returns \<open>[-1]\<close>, which is
  neither \<open>max(V, intrinsic(S)) = [0]\<close> nor at least the intrinsic value \<open>0\<close>.
\<close>

theorem CallA_transient_below_intrinsic:
  "transient (CallA 1 100) 0 [- 1] [90] = Inr [- 1]
   \<and> transient (CallA 1 100) 0 [- 1] [90]
        \<noteq> Inr (map2 max [- 1] (map (\<lambda>s. max (s - 100) 0) [90]))
   \<and> \<not> max (90 - 100) 0 \<le> [- 1 :: real] ! 0"
  by (simp add: CallA_transient_def broadcast_arr_def)

text \<open>
  Claim C3 says that \<open>t in payoff\<close> is True exactly when \<open>0 \<le> t \<le> T\<close>. The method of
  the base class compares with the global name \<open>T\<close> instead of \<open>self.T\<close>: for
  \<open>Payoff(1)\<close> and \<open>t = 0.5\<close> the test raises a NameError instead of returning True,
  and so do the test and \<open>coupon\<close> of an \<open>UpAndOut\<close>, which inherits it.
\<close>

theorem Payoff_contains_NameError:
  "contains (Payoff 1) (1 / 2) = Inl NameError
   \<and> contains (UpAndOut_init (Payoff 1) 120) (1 / 2) = Inl NameError
   \<and> coupon (UpAndOut_init (Payoff 1) 120) (1 / 2) = Inl NameError"
  by (simp add: Payoff_contains_def UpAndOut_init_def)

text \<open>
  Claim C4. \<open>terminal\<close>, \<open>default\<close> and \<open>transient\<close> of an \<open>UpAndOut\<close> with barrier
  \<open>L\<close> run the child on the nodes with spot below \<open>L\<close> only (and, for \<open>transient\<close>,
  on the values at those nodes); whenever the child returns, the result has the shape of
  \<open>S\<close>, holds at a node below \<open>L\<close> the child's value for that node (its position among
  the nodes below \<open>L\<close>), and zero at every node at or above \<open>L\<close>. For the spots
  \<open>[90, 120, 150]\<close>, \<open>L = 120\<close> and the child \<open>CallE(T, 100)\<close>, \<open>terminal\<close> is
  \<open>[0, 0, 0]\<close>.
\<close>

theorem UpAndOut_knocks_out:
  "(terminal p (filter (\<lambda>s. s < L) S) = Inr W \<longrightarrow>
      (\<exists>R. terminal (UpAndOut T p L) S = Inr (Array R) \<and> length R = length S
         \<and> (\<forall>i<length S. R ! i =
               (if S ! i < L then node_value W (length (filter (\<lambda>s. s < L) (take i S)))
                else 0))))
   \<and> (t \<noteq> T \<and> default_val p t (filter (\<lambda>s. s < L) S) = Inr Wd \<longrightarrow>
      (\<exists>R. default_val (UpAndOut T p L) t S = Inr R \<and> length R = length S
         \<and> (\<forall>i<length S. R ! i =
               (if S ! i < L then Wd ! length (filter (\<lambda>s. s < L) (take i S)) else 0))))
   \<and> (length V = length S
        \<and> transient p t (map fst (filter (\<lambda>(v, s). s < L) (zip V S)))
              (filter (\<lambda>s. s < L) S) = Inr Wt \<longrightarrow>
      (\<exists>R. transient (UpAndOut T p L) t V S = Inr R \<and> length R = length S
         \<and> (\<forall>i<length S. R ! i =
               (if S ! i < L then Wt ! length (filter (\<lambda>s. s < L) (take i S)) else 0))))
   \<and> terminal (UpAndOut_init (CallE T 100) 120) [90, 120, 150] = Inr (Array [0, 0, 0])"
proof -
  let ?P = "\<lambda>s. s < L"
  have a: "\<exists>R. terminal (UpAndOut T p L) S = Inr (Array R) \<and> length R = length S
         \<and> (\<forall>i<length S. R ! i =
               (if S ! i < L then node_value W (length (filter ?P (take i S))) else 0))"
    if W: "terminal p (filter ?P S) = Inr W"
  proof -
    have "has_shape W (length (filter ?P S))" using W by (rule terminal_shape(1))
    from mask_assign_nth [OF this] W show ?thesis
      by (auto simp: Let_def mask_select_filter)
  qed
  have b: "\<exists>R. default_val (UpAndOut T p L) t S = Inr R \<and> length R = length S
         \<and> (\<forall>i<length S. R ! i =
               (if S ! i < L then Wd ! length (filter ?P (take i S)) else 0))"
    if t: "t \<noteq> T" and W: "default_val p t (filter ?P S) = Inr Wd"
  proof -
    have "has_shape (Array Wd) (length (filter ?P S))"
      using default_shape(1) [OF W] by simp
    from mask_assign_nth [OF this] W t show ?thesis
      by (auto simp: Let_def mask_select_filter)
  qed
  have c: "\<exists>R. transient (UpAndOut T p L) t V S = Inr R \<and> length R = length S
         \<and> (\<forall>i<length S. R ! i =
               (if S ! i < L then Wt ! length (filter ?P (take i S)) else 0))"
    if len: "length V = length S"
      and W: "transient p t (map fst (filter (\<lambda>(v, s). s < L) (zip V S))) (filter ?P S) = Inr Wt"
  proof -
    have "length (map fst (filter (\<lambda>(v, s). s < L) (zip V S))) = length (filter ?P S)"
      using len by (induction V S rule: list_induct2) auto
    then have "has_shape (Array Wt) (length (filter ?P S))"
      using transient_shape(1) [OF W] by simp
    from mask_assign_nth [OF this] W len show ?thesis
      by (auto simp: Let_def mask_select_filter mask_select_zip)
  qed
  have d: "terminal (UpAndOut_init (CallE T 100) 120) [90, 120, 150] = Inr (Array [0, 0, 0])"
    by (simp add: UpAndOut_init_def np_zeros_def mask_select_def mask_assign_def
        CallE_terminal_def)
  show ?thesis using a b c d by blast
qed

theorem UpAndOut_knocks_out_witness:
  "terminal (CallA 1 100) (filter (\<lambda>s. s < 120) [110, 120, 150, 115]) = Inr (Array [10, 15])
   \<and> (0 :: real) \<noteq> 1
   \<and> default_val (CallA 1 100) 0 (filter (\<lambda>s. s < 120) [110, 120, 150, 115]) = Inr [10, 15]
   \<and> length [1 :: real, 2, 3, 20] = length [110 :: real, 120, 150, 115]
   \<and> transient (CallA 1 100) 0
        (map fst (filter (\<lambda>(v, s). s < 120) (zip [1, 2, 3, 20] [110 :: real, 120, 150, 115])))
        (filter (\<lambda>s. s < 120) [110, 120, 150, 115]) = Inr [10, 20]
   \<and> terminal (UpAndOut 1 (CallA 1 100) 120) [110, 120, 150, 115] = Inr (Array [10, 0, 0, 15])
   \<and> default_val (UpAndOut 1 (CallA 1 100) 120) 0 [110, 120, 150, 115] = Inr [10, 0, 0, 15]
   \<and> transient (UpAndOut 1 (CallA 1 100) 120) 0 [1, 2, 3, 20] [110, 120, 150, 115]
        = Inr [10, 0, 0, 20]"
  using UpAndOut_knocks_out [of "CallA 1 100" 120 "[110, 120, 150, 115]" "Array [10, 15]" 1 0
      "[10, 15]" "[1, 2, 3, 20]" "[10, 20]"]
  by (simp add: CallE_terminal_def CallA_default_def CallA_transient_def broadcast_arr_def
      np_zeros_def mask_select_def mask_assign_def)

text \<open>
  Claim C5. For an object of a strike-bearing class with the \<open>VariableStrike\<close> mixin,
  after \<open>transient(t, V, S)\<close> the field \<open>K\<close> has its value from before the call (the
  object is as it was), whether \<open>strike\<close> raises, the \<open>transient\<close> of the class raises
  or it returns; and the value returned or the exception raised is the one of the class
  with \<open>K = strike(t)\<close>, so the substituted strike is seen by that call only.
\<close>

theorem VariableStrike_restores_K:
  assumes "K_of self = Some K0"
  shows "K_of (snd (VariableStrike_transient strike self t V S)) = Some K0
       \<and> snd (VariableStrike_transient strike self t V S) = self
       \<and> (\<forall>k. strike t = Inr k \<longrightarrow>
            fst (VariableStrike_transient strike self t V S)
              = (case transient (set_K self k) t V S of
                   Inl e \<Rightarrow> Inl (Raised e) | Inr W \<Rightarrow> Inr W))
       \<and> (\<forall>e. strike t = Inl e \<longrightarrow>
            fst (VariableStrike_transient strike self t V S) = Inl (Raised e))"
  using assms
  by (auto simp: VariableStrike_transient_def Let_def set_K_set_K set_K_K_of K_of_set_K
      split: sum.splits)

theorem VariableStrike_restores_K_witness:
  "K_of (CallA 1 100) = Some 100
   \<and> VariableStrike_transient (\<lambda>t. Inr (100 + 10 * t)) (CallA 1 100) (1 / 2) [3, 4] [90, 110]
       = (Inr [3, 5], CallA 1 100)
   \<and> VariableStrike_transient (\<lambda>t. Inr (100 + 10 * t)) (CallA 1 100) 1 [3, 4] [90, 110]
       = (Inl (Raised AssertionError), CallA 1 100)
   \<and> VariableStrike_transient (\<lambda>t. Inl ValueError) (CallA 1 100) (1 / 2) [3, 4] [90, 110]
       = (Inl (Raised ValueError), CallA 1 100)"
  using VariableStrike_restores_K [of "CallA 1 100" 100 "\<lambda>t. Inr (100 + 10 * t)" "1 / 2"
      "[3, 4]" "[90, 110]"]
  by (simp add: VariableStrike_transient_def CallA_transient_def broadcast_arr_def)

text \<open>
  Claim C6. For a non-empty sequence of constructed child payoffs, \<open>Stack\<close> builds a stack
  with the maturity of the first child; every child's own \<open>terminal(S)\<close> returns, and
  \<open>terminal(S)\<close> of the stack returns a value of the shape of \<open>S\<close> that is, at every
  node, the maximum of the children's values at that node.
\<close>

theorem Stack_terminal_max:
  assumes "ps \<noteq> []" and "built_list ps"
  shows "\<exists>st vs R. Stack_init ps = Inr st \<and> T_of st = T_of (hd ps)
           \<and> map (\<lambda>p. terminal p S) ps = map Inr vs
           \<and> terminal st S = Inr R \<and> has_shape R (length S)
           \<and> (\<forall>i<length S. node_value R i = Max (set (map (\<lambda>v. node_value v i) vs)))"
proof -
  from terminal_values [OF assms(2)] obtain vs where
    all: "map (\<lambda>p. terminal p S) ps = map Inr vs" by blast
  with assms(1) obtain p rest v vs' where ps: "ps = p # rest" and vs: "vs = v # vs'"
    and v: "terminal p S = Inr v"
    and rest: "map (\<lambda>p. terminal p S) rest = map Inr vs'"
    by (cases ps; cases vs) auto
  have sv: "has_shape v (length S)" using v by (rule terminal_shape(1))
  from terminal_loop_max [OF sv rest] obtain R where
    R: "terminal_loop rest S v = Inr R" "has_shape R (length S)"
    "\<forall>i<length S. node_value R i = fold max (map (\<lambda>v. node_value v i) vs') (node_value v i)"
    by blast
  have init: "Stack_init ps = Inr (Stack (T_of p) ps)" by (simp add: Stack_init_def ps)
  have trm: "terminal (Stack (T_of p) ps) S = Inr R" using v R(1) by (simp add: ps)
  have "Max (set (map (\<lambda>v. node_value v i) vs))
      = fold max (map (\<lambda>v. node_value v i) vs') (node_value v i)" for i
    unfolding vs list.map by (rule Max.set_eq_fold)
  then have "\<forall>i<length S. node_value R i = Max (set (map (\<lambda>v. node_value v i) vs))"
    using R(3) by simp
  with init trm R(2) all have "Stack_init ps = Inr (Stack (T_of p) ps)
      \<and> T_of (Stack (T_of p) ps) = T_of (hd ps)
      \<and> map (\<lambda>p. terminal p S) ps = map Inr vs
      \<and> terminal (Stack (T_of p) ps) S = Inr R \<and> has_shape R (length S)
      \<and> (\<forall>i<length S. node_value R i = Max (set (map (\<lambda>v. node_value v i) vs)))"
    by (simp add: ps)
  then show ?thesis by blast
qed

theorem Stack_terminal_max_witness:
  "[Time_init (CallE 10 100) [Instant 2], PutE 10 100, CallE 10 105] \<noteq> []
   \<and> built_list [Time_init (CallE 10 100) [Instant 2], PutE 10 100, CallE 10 105]
   \<and> map (\<lambda>p. terminal p [90, 110])
         [Time_init (CallE 10 100) [Instant 2], PutE 10 100, CallE 10 105]
       = map Inr [Scalar 0, Array [10, 0], Array [0, 5]]
   \<and> (\<exists>st. Stack_init [Time_init (CallE 10 100) [Instant 2], PutE 10 100, CallE 10 105] = Inr st
         \<and> T_of st = 10 \<and> terminal st [90, 110] = Inr (Array [10, 5]))"
  using Stack_terminal_max [of "[Time_init (CallE 10 100) [Instant 2], PutE 10 100, CallE 10 105]"
      "[90, 110]"]
  by (simp add: Stack_init_def Time_init_def times_setter_def Time_contains_def
      CallE_terminal_def PutE_terminal_def np_maximum_def broadcast_arr_def)

text \<open>
  Claim C7. For a \<open>Time\<close> object, \<open>t in time\<close> is True exactly when \<open>t\<close> is one of the
  registered instants or lies between the bounds of a registered interval, the bounds
  included. With the restriction \<open>{2.0, (5.0, 7.0)}\<close> and \<open>T = 10\<close> the test holds at
  2, 5, 6.5 and 7 and fails at 3 and 7.5.
\<close>

theorem Time_contains_iff:
  "contains (Time T p D C) t
     = Inr (t \<in> D \<or> (\<exists>l u. (l, u) \<in> set C \<and> l \<le> t \<and> t \<le> u))
   \<and> contains (Time_init (Payoff 10) [Instant 2, Interval 5 7]) 2 = Inr True
   \<and> contains (Time_init (Payoff 10) [Instant 2, Interval 5 7]) 5 = Inr True
   \<and> contains (Time_init (Payoff 10) [Instant 2, Interval 5 7]) 6.5 = Inr True
   \<and> contains (Time_init (Payoff 10) [Instant 2, Interval 5 7]) 7 = Inr True
   \<and> contains (Time_init (Payoff 10) [Instant 2, Interval 5 7]) 3 = Inr False
   \<and> contains (Time_init (Payoff 10) [Instant 2, Interval 5 7]) 7.5 = Inr False"
  by (simp add: Time_contains_def in_continuous_iff Time_init_def times_setter_def)

theorem Time_contains_iff_witness:
  "contains (Time 10 (CallE 10 100) {2} [(5, 7), (8, 9)]) 8.5 = Inr True
   \<and> contains (Time 10 (CallE 10 100) {2} [(5, 7), (8, 9)]) 7.5 = Inr False"
  using Time_contains_iff [of 10 "CallE 10 100" "{2}" "[(5, 7), (8, 9)]" "8.5"]
        Time_contains_iff [of 10 "CallE 10 100" "{2}" "[(5, 7), (8, 9)]" "7.5"]
  by (simp add: Time_contains_def)

text \<open>
  Claim C8 says that \<open>terminal(S)\<close> of a \<open>Time\<close> whose maturity is outside the
  restriction is a zero value over the nodes, of the shape of \<open>S\<close>. The method returns
  the scalar \<open>0\<close> there, where \<open>Time.default\<close> returns \<open>np.zeros(S.shape)\<close>: for
  \<open>Time(CallE(10, 100), [2.0])\<close> and two nodes the result is the scalar, not the array
  \<open>[0, 0]\<close>.
\<close>

theorem Time_terminal_scalar_zero:
  "terminal (Time_init (CallE 10 100) [Instant 2]) [90, 110] = Inr (Scalar 0)
   \<and> terminal (Time_init (CallE 10 100) [Instant 2]) [90, 110]
        \<noteq> Inr (Array (np_zeros (length [90 :: real, 110])))
   \<and> default_val (Time_init (CallE 10 100) [Instant 2]) 3 [90, 110]
        = Inr (np_zeros (length [90 :: real, 110]))
   \<and> terminal (Time_init (CallE 10 100) [Instant 10]) [90, 110]
        = terminal (CallE 10 100) [90, 110]"
  by (simp add: Time_init_def times_setter_def Time_contains_def np_zeros_def)

text \<open>
  Claim C9. For the bond with \<open>C = 5\<close>, \<open>N = 100\<close>, schedule \<open>{1, 2, 3}\<close> and
  \<open>T = 3\<close>, and every node array \<open>S\<close> and value array \<open>V\<close>: \<open>terminal(S)\<close> of
  \<open>AnnuityI\<close> is \<open>terminal(S)\<close> of \<open>Annuity\<close> plus \<open>coupon(3)\<close> of \<open>Annuity\<close> at
  every node; \<open>transient(1, V, S)\<close> of \<open>AnnuityI\<close> is \<open>V + 5\<close>, and that of
  \<open>Annuity\<close> is \<open>V\<close>.
\<close>

theorem AnnuityI_vs_Annuity:
  "\<exists>A c. terminal (Annuity 3 [1, 2, 3] 5 100 R) S = Inr (Array A)
      \<and> coupon (Annuity 3 [1, 2, 3] 5 100 R) 3 = Inr c
      \<and> terminal (AnnuityI 3 [1, 2, 3] 5 100 R) S = Inr (Array (map (\<lambda>a. a + c) A))
      \<and> transient (AnnuityI 3 [1, 2, 3] 5 100 R) 1 V S = Inr (map (\<lambda>v. v + 5) V)
      \<and> transient (Annuity 3 [1, 2, 3] 5 100 R) 1 V S = Inr V"
  by (simp add: Annuity_terminal_def Annuity_coupon_def AnnuityI_terminal_def
      AnnuityI_transient_def Payoff_transient_def)

theorem AnnuityI_vs_Annuity_witness:
  "terminal (Annuity 3 [1, 2, 3] 5 100 0) [90, 110] = Inr (Array [100, 100])
   \<and> coupon (Annuity 3 [1, 2, 3] 5 100 0) 3 = Inr 5
   \<and> terminal (AnnuityI 3 [1, 2, 3] 5 100 0) [90, 110] = Inr (Array [105, 105])
   \<and> transient (AnnuityI 3 [1, 2, 3] 5 100 0) 1 [7, 8] [90, 110] = Inr [12, 13]
   \<and> transient (Annuity 3 [1, 2, 3] 5 100 0) 1 [7, 8] [90, 110] = Inr [7, 8]"
  using AnnuityI_vs_Annuity [of 0 "[90, 110]" "[7, 8]"]
  by (simp add: Annuity_terminal_def Annuity_coupon_def AnnuityI_terminal_def
      AnnuityI_transient_def Payoff_transient_def np_ones_def)

text \<open>
  Claim C10. After the setter of \<open>times\<close> has run, every registered instant lies in
  \<open>[0, T]\<close> (a scalar entry outside it is not registered), every registered interval
  has a lower bound of at least 0 and an upper bound of at most \<open>T\<close>, and so every
  \<open>t\<close> for which \<open>t in time\<close> is True lies in \<open>[0, T]\<close>.
\<close>

theorem times_setter_within_maturity:
  assumes "times_setter T entries = (D, C)"
  shows "(\<forall>d\<in>D. 0 \<le> d \<and> d \<le> T)
       \<and> (\<forall>x. Instant x \<in> set entries \<and> \<not> (0 \<le> x \<and> x \<le> T) \<longrightarrow> x \<notin> D)
       \<and> (\<forall>l u. (l, u) \<in> set C \<longrightarrow> 0 \<le> l \<and> u \<le> T)
       \<and> (\<forall>t. contains (Time T p D C) t = Inr True \<longrightarrow> 0 \<le> t \<and> t \<le> T)"
proof -
  from assms have D: "D = {x. Instant x \<in> set entries \<and> 0 \<le> x \<and> x \<le> T}"
    and C: "C = concat (map (\<lambda>e. case e of Instant x \<Rightarrow> []
                                | Interval a b \<Rightarrow> [(max a 0, min b T)]) entries)"
    by (simp_all add: times_setter_def times_loop_char)
  have 1: "\<forall>d\<in>D. 0 \<le> d \<and> d \<le> T" using D by simp
  have 2: "\<forall>x. Instant x \<in> set entries \<and> \<not> (0 \<le> x \<and> x \<le> T) \<longrightarrow> x \<notin> D"
    using D by simp
  have 3: "\<forall>l u. (l, u) \<in> set C \<longrightarrow> 0 \<le> l \<and> u \<le> T"
    unfolding C by (auto split: time_entry.splits)
  have 4: "\<forall>t. contains (Time T p D C) t = Inr True \<longrightarrow> 0 \<le> t \<and> t \<le> T"
    using 1 3 by (fastforce simp: Time_contains_def in_continuous_iff split: if_splits)
  show ?thesis using 1 2 3 4 by blast
qed

theorem times_setter_within_maturity_witness:
  "times_setter 10 [Instant 2, Instant 12, Interval (- 1) 11, Interval 5 7]
     = ({2}, [(0, 10), (5, 7)])
   \<and> contains (Time 10 (Payoff 10) {2} [(0, 10), (5, 7)]) 6 = Inr True
   \<and> (0 :: real) \<le> 6 \<and> (6 :: real) \<le> 10"
  using times_setter_within_maturity [of 10 "[Instant 2, Instant 12, Interval (- 1) 11, Interval 5 7]"
      "{2}" "[(0, 10), (5, 7)]" "Payoff 10"]
  by (simp add: times_setter_def Time_contains_def)

end
